theory Spec2Isabelle
  imports Complex_Main
begin

section \<open>JavaScript values used by the scraping scripts\<close>

text \<open>
  The scripts read a product object obtained from \<^verbatim>\<open>JSON.parse\<close>. The model is typed:
  a field that may be missing is an \<open>option\<close> (\<open>None\<close> stands for a missing field
  and, where the code only tests the field for truthiness, for \<^verbatim>\<open>null\<close>), an array is
  a list, and a run-time exception of the source is the value \<open>Inl TypeError\<close> of a
  sum type. Inputs whose fields have another JavaScript
  type than the one the code expects (a number where a string is read, a \<^verbatim>\<open>null\<close>
  array element) are excluded by the types.
\<close>

datatype error = TypeError

text \<open>
  Prices. The values a price field takes: missing, \<^verbatim>\<open>null\<close>, \<^verbatim>\<open>NaN\<close> or a number.
  Numbers are rationals, so \<^verbatim>\<open>/ 100\<close> is exact; the rounding of IEEE doubles is not
  modelled.
\<close>

datatype jsval = Undefined | Null | NaN | Num rat

text \<open>\<^verbatim>\<open>!x\<close> is \<open>\<not> truthy x\<close>: zero, \<^verbatim>\<open>NaN\<close>, \<^verbatim>\<open>null\<close> and \<^verbatim>\<open>undefined\<close> are falsy.\<close>

fun truthy :: "jsval \<Rightarrow> bool" where
  "truthy (Num r) = (r \<noteq> 0)"
| "truthy Undefined = False"
| "truthy Null = False"
| "truthy NaN = False"

text \<open>\<^verbatim>\<open>x > n\<close> for a numeric literal \<open>n\<close>: \<^verbatim>\<open>null\<close> converts to 0, \<^verbatim>\<open>undefined\<close> and
  \<^verbatim>\<open>NaN\<close> compare false.\<close>

fun gt :: "jsval \<Rightarrow> rat \<Rightarrow> bool" where
  "gt (Num r) n = (n < r)"
| "gt Null n = (n < 0)"
| "gt Undefined n = False"
| "gt NaN n = False"

text \<open>\<^verbatim>\<open>x / 100\<close>.\<close>

fun div100 :: "jsval \<Rightarrow> jsval" where
  "div100 (Num r) = Num (r / 100)"
| "div100 Null = Num 0"
| "div100 Undefined = NaN"
| "div100 NaN = NaN"

text \<open>\<^verbatim>\<open>a || b\<close> on these values.\<close>

definition js_or :: "jsval \<Rightarrow> jsval \<Rightarrow> jsval" where
  "js_or a b = (if truthy a then a else b)"

text \<open>\<^verbatim>\<open>s || null\<close> on an optional string: the empty string is falsy.\<close>

fun str_or_null :: "string option \<Rightarrow> string option" where
  "str_or_null None = None"
| "str_or_null (Some s) = (if s = [] then None else Some s)"

subsection \<open>Strings\<close>

definition startsWith :: "string \<Rightarrow> string \<Rightarrow> bool" where
  "startsWith s p = (take (length p) s = p)"

text \<open>\<^verbatim>\<open>s.includes(p)\<close>: \<open>p\<close> occurs somewhere in \<open>s\<close>.\<close>

fun includes_str :: "string \<Rightarrow> string \<Rightarrow> bool" where
  "includes_str [] p = (p = [])"
| "includes_str (c # s) p = (startsWith (c # s) p \<or> includes_str s p)"

text \<open>
  Variant ids are numbers or strings; \<^verbatim>\<open>id.toString()\<close> prints an integer in decimal and
  returns a string as it is. Ids are integers in the range where a double is exact.
\<close>

datatype jsid = IdNum int | IdStr string

function string_of_nat :: "nat \<Rightarrow> string" where
  "string_of_nat n =
     (if n < 10 then [''0123456789'' ! n]
      else string_of_nat (n div 10) @ [''0123456789'' ! (n mod 10)])"
  by pat_completeness auto
termination
  by (relation "measure id") auto

fun toString :: "jsid \<Rightarrow> string" where
  "toString (IdStr s) = s"
| "toString (IdNum i) = (if i < 0 then CHR ''-'' # string_of_nat (nat (- i)) else string_of_nat (nat i))"

section \<open>The helpers of the step-by-step crawler\<close>

text \<open>
  \<^verbatim>\<open>new URL(url, base).href\<close> is a function of the platform, not of the scripts. It is a
  parameter \<open>href\<close> of every definition that calls it; \<open>Inl TypeError\<close> is the exception
  the constructor throws on an invalid URL.
\<close>

type_synonym url_ctor = "string \<Rightarrow> string \<Rightarrow> error + string"

text \<open>
  What the constructor returns for a path that begins with one slash, against an origin
  such as \<^verbatim>\<open>https://shop.example\<close>: the origin followed by the path. It stands for the
  constructor in the concrete scenarios only, whose arguments are of this form.
\<close>

definition origin_path_href :: url_ctor where
  "origin_path_href url base = Inr (base @ url)"

text \<open>\<^verbatim>\<open>makeAbsoluteUrl(url, baseUrl)\<close>: a falsy url gives \<^verbatim>\<open>null\<close>.\<close>

definition makeAbsoluteUrl :: "url_ctor \<Rightarrow> string option \<Rightarrow> string \<Rightarrow> error + string option" where
  "makeAbsoluteUrl href url baseUrl =
     (case str_or_null url of
        None \<Rightarrow> Inr None
      | Some u \<Rightarrow>
          (if startsWith u ''/'' then
             (case href u baseUrl of Inl e \<Rightarrow> Inl e | Inr a \<Rightarrow> Inr (Some a))
           else Inr (Some u)))"

text \<open>
  The regular expression \<^verbatim>\<open>/_(pico|icon|thumb|small|compact|medium|large|grande|original)_/\<close>
  and \<^verbatim>\<open>String.prototype.replace\<close> with it: without the \<^verbatim>\<open>g\<close> flag only the leftmost match
  is replaced. \<open>match_here ts s\<close> tries the alternatives in order at the start of \<open>s\<close> and
  returns what follows the match.
\<close>

definition size_tokens :: "string list" where
  "size_tokens = [''pico'', ''icon'', ''thumb'', ''small'', ''compact'', ''medium'',
     ''large'', ''grande'', ''original'']"

fun match_here :: "string list \<Rightarrow> string \<Rightarrow> string option" where
  "match_here [] s = None"
| "match_here (t # ts) s =
     (if startsWith s (''_'' @ t @ ''_'') then Some (drop (length t + 2) s)
      else match_here ts s)"

fun replace_size :: "string \<Rightarrow> string" where
  "replace_size [] = []"
| "replace_size (c # s) =
     (case match_here size_tokens (c # s) of
        Some rest \<Rightarrow> ''_2048x2048_'' @ rest
      | None \<Rightarrow> c # replace_size s)"

text \<open>The guarded rewrite, as every copy of it in the scripts has it.\<close>

definition highRes :: "string \<Rightarrow> string" where
  "highRes imageUrl =
     (if includes_str imageUrl ''cdn.shopify.com'' then replace_size imageUrl else imageUrl)"

text \<open>\<^verbatim>\<open>getHighResImage(imageUrl)\<close>: a falsy url gives \<^verbatim>\<open>null\<close>.\<close>

definition getHighResImage :: "string option \<Rightarrow> string option" where
  "getHighResImage imageUrl =
     (case str_or_null imageUrl of None \<Rightarrow> None | Some u \<Rightarrow> Some (highRes u))"

text \<open>\<^verbatim>\<open>normalizePrice(price)\<close>.\<close>

definition normalizePrice :: "jsval \<Rightarrow> jsval" where
  "normalizePrice price =
     (if \<not> truthy price then Null
      else if gt price 10000 then div100 price else price)"

section \<open>The product object\<close>

text \<open>
  An entry of \<^verbatim>\<open>images\<close> is a string or an object with \<^verbatim>\<open>src\<close> and \<^verbatim>\<open>variant_ids\<close>.
  The records are extensible: the fields the code never reads are the \<open>more\<close> part.
\<close>

record image_obj =
  img_src :: "string option"
  img_variant_ids :: "jsid list option"

datatype img = ImgStr string | ImgObj image_obj

record featured_image =
  fi_src :: "string option"

text \<open>
  The \<^verbatim>\<open>image\<close> field of a variant object: the key is absent or \<^verbatim>\<open>undefined\<close> (JSON
  output omits it in both cases), \<^verbatim>\<open>null\<close>, or a string. Assigning a source that is
  \<^verbatim>\<open>undefined\<close> gives \<open>NoImage\<close>.
\<close>

datatype image_field = NoImage | NullImage | Image string

fun to_field :: "string option \<Rightarrow> image_field" where
  "to_field None = NoImage"
| "to_field (Some s) = Image s"

record variant =
  v_id :: "jsid option"
  v_title :: "string option"
  v_price :: jsval
  v_compare_at_price :: jsval
  v_sku :: "string option"
  v_available :: "bool option"
  v_inventory_quantity :: jsval
  v_option1 :: "string option"
  v_option2 :: "string option"
  v_option3 :: "string option"
  v_featured_image :: "featured_image option"
  v_image :: image_field

record 'v product =
  p_price_min :: jsval
  p_price :: jsval
  p_images :: "img list option"
  p_variants :: "'v variant_scheme list option"

text \<open>\<^verbatim>\<open>img.src\<close> and \<^verbatim>\<open>img.variant_ids\<close> of an entry; both are \<^verbatim>\<open>undefined\<close> on a string.\<close>

fun src_of :: "img \<Rightarrow> string option" where
  "src_of (ImgStr s) = None"
| "src_of (ImgObj i) = img_src i"

fun variant_ids_of :: "img \<Rightarrow> jsid list option" where
  "variant_ids_of (ImgStr s) = None"
| "variant_ids_of (ImgObj i) = img_variant_ids i"

text \<open>\<^verbatim>\<open>variant.featured_image && variant.featured_image.src\<close>, when truthy.\<close>

definition featured_src :: "'v variant_scheme \<Rightarrow> string option" where
  "featured_src v =
     (case v_featured_image v of None \<Rightarrow> None | Some fi \<Rightarrow> str_or_null (fi_src fi))"

text \<open>\<^verbatim>\<open>ids.forEach(variantId => variantImageMap.set(variantId.toString(), u))\<close>.\<close>

definition set_variant_ids :: "(string \<rightharpoonup> 'u) \<Rightarrow> jsid list \<Rightarrow> 'u \<Rightarrow> (string \<rightharpoonup> 'u)" where
  "set_variant_ids m ids u = fold (\<lambda>variantId m'. m'(toString variantId \<mapsto> u)) ids m"

section \<open>processVariantImages\<close>

text \<open>
  First pass. The map stores \<^verbatim>\<open>img.src\<close> as it is, which is \<^verbatim>\<open>undefined\<close> (\<open>None\<close>) for
  an image without a source.
\<close>

fun variantImageMap_forEach :: "img list \<Rightarrow> (string \<rightharpoonup> string option) \<Rightarrow> (string \<rightharpoonup> string option)" where
  "variantImageMap_forEach [] m = m"
| "variantImageMap_forEach (i # imgs) m =
     (case variant_ids_of i of
        None \<Rightarrow> variantImageMap_forEach imgs m
      | Some ids \<Rightarrow> variantImageMap_forEach imgs (set_variant_ids m ids (src_of i)))"

definition variantImageMap :: "('v, 'p) product_scheme \<Rightarrow> (string \<rightharpoonup> string option)" where
  "variantImageMap productJson =
     (case p_images productJson of
        None \<Rightarrow> Map.empty
      | Some imgs \<Rightarrow> variantImageMap_forEach imgs Map.empty)"

text \<open>
  Second pass, one variant. \<^verbatim>\<open>variant.id.toString()\<close> throws when the id is missing.
  The chain of conditions has no final \<^verbatim>\<open>else\<close>: when no rule applies nothing is assigned
  and the variant is left as it is.
\<close>

definition assign_image ::
  "(string \<rightharpoonup> string option) \<Rightarrow> img list option \<Rightarrow> 'v variant_scheme \<Rightarrow> error + 'v variant_scheme" where
  "assign_image m images v =
     (case featured_src v of
        Some s \<Rightarrow> Inr (v\<lparr>v_image := Image s\<rparr>)
      | None \<Rightarrow>
          (case v_id v of
             None \<Rightarrow> Inl TypeError
           | Some i \<Rightarrow>
               (case m (toString i) of
                  Some u \<Rightarrow> Inr (v\<lparr>v_image := to_field u\<rparr>)
                | None \<Rightarrow>
                    (case images of
                       Some (i0 # _) \<Rightarrow> Inr (v\<lparr>v_image := to_field (src_of i0)\<rparr>)
                     | _ \<Rightarrow> Inr v))))"

text \<open>\<^verbatim>\<open>variants.forEach\<close>: the first exception ends the loop.\<close>

fun assign_images ::
  "(string \<rightharpoonup> string option) \<Rightarrow> img list option \<Rightarrow> 'v variant_scheme list \<Rightarrow> error + 'v variant_scheme list" where
  "assign_images m images [] = Inr []"
| "assign_images m images (v # vs) =
     (case assign_image m images v of
        Inl e \<Rightarrow> Inl e
      | Inr v' \<Rightarrow>
          (case assign_images m images vs of
             Inl e \<Rightarrow> Inl e
           | Inr vs' \<Rightarrow> Inr (v' # vs')))"

definition processVariantImages :: "('v, 'p) product_scheme \<Rightarrow> error + ('v, 'p) product_scheme" where
  "processVariantImages productJson =
     (case p_variants productJson of
        None \<Rightarrow> Inr productJson
      | Some vs \<Rightarrow>
          (case assign_images (variantImageMap productJson) (p_images productJson) vs of
             Inl e \<Rightarrow> Inl e
           | Inr vs' \<Rightarrow> Inr (productJson\<lparr>p_variants := Some vs'\<rparr>)))"

section \<open>crawlCollection: images, variant image map and variants\<close>

text \<open>
  The block that makes a URL absolute and high-resolution; the script repeats it for the
  images list, for the map and for a featured image. \<open>origin\<close> is
  \<^verbatim>\<open>window.location.origin\<close>.
\<close>

definition absolute_highRes :: "url_ctor \<Rightarrow> string \<Rightarrow> string \<Rightarrow> error + string" where
  "absolute_highRes href origin imageUrl =
     (case (if \<not> startsWith imageUrl ''http'' then href imageUrl origin else Inr imageUrl) of
        Inl e \<Rightarrow> Inl e
      | Inr a \<Rightarrow> Inr (highRes a))"

text \<open>The product's own price, computed before the variants are read.\<close>

definition product_price :: "('v, 'p) product_scheme \<Rightarrow> jsval" where
  "product_price productJson =
     (if p_price_min productJson \<noteq> Undefined then div100 (p_price_min productJson)
      else if p_price productJson \<noteq> Undefined then
        (if gt (p_price productJson) 10000 then div100 (p_price productJson)
         else p_price productJson)
      else Undefined)"

text \<open>
  \<^verbatim>\<open>images = productJson.images.map(...).filter(Boolean)\<close>: an entry without a source maps
  to \<^verbatim>\<open>null\<close> and is filtered out.
\<close>

fun image_url :: "img \<Rightarrow> string option" where
  "image_url (ImgStr s) = Some s"
| "image_url (ImgObj i) = str_or_null (img_src i)"

fun images_map :: "url_ctor \<Rightarrow> string \<Rightarrow> img list \<Rightarrow> error + string option list" where
  "images_map href origin [] = Inr []"
| "images_map href origin (i # imgs) =
     (case (case image_url i of
              None \<Rightarrow> Inr None
            | Some u \<Rightarrow>
                (case absolute_highRes href origin u of Inl e \<Rightarrow> Inl e | Inr a \<Rightarrow> Inr (Some a))) of
        Inl e \<Rightarrow> Inl e
      | Inr x \<Rightarrow>
          (case images_map href origin imgs of
             Inl e \<Rightarrow> Inl e
           | Inr xs \<Rightarrow> Inr (x # xs)))"

fun filter_Boolean :: "string option list \<Rightarrow> string list" where
  "filter_Boolean [] = []"
| "filter_Boolean (None # xs) = filter_Boolean xs"
| "filter_Boolean (Some s # xs) = (if s = [] then filter_Boolean xs else s # filter_Boolean xs)"

definition crawl_images :: "url_ctor \<Rightarrow> string \<Rightarrow> ('v, 'p) product_scheme \<Rightarrow> error + string list" where
  "crawl_images href origin productJson =
     (case p_images productJson of
        None \<Rightarrow> Inr []
      | Some imgs \<Rightarrow>
          (case images_map href origin imgs of
             Inl e \<Rightarrow> Inl e
           | Inr xs \<Rightarrow> Inr (filter_Boolean xs)))"

text \<open>
  The map from stringified variant id to image URL. An image with \<^verbatim>\<open>variant_ids\<close> and no
  \<^verbatim>\<open>src\<close> throws at \<^verbatim>\<open>fullImageUrl.startsWith\<close>.
\<close>

fun crawl_variantImageMap_forEach ::
  "url_ctor \<Rightarrow> string \<Rightarrow> img list \<Rightarrow> (string \<rightharpoonup> string) \<Rightarrow> error + (string \<rightharpoonup> string)" where
  "crawl_variantImageMap_forEach href origin [] m = Inr m"
| "crawl_variantImageMap_forEach href origin (i # imgs) m =
     (case variant_ids_of i of
        None \<Rightarrow> crawl_variantImageMap_forEach href origin imgs m
      | Some ids \<Rightarrow>
          (case src_of i of
             None \<Rightarrow> Inl TypeError
           | Some imageUrl \<Rightarrow>
               (case absolute_highRes href origin imageUrl of
                  Inl e \<Rightarrow> Inl e
                | Inr fullImageUrl \<Rightarrow>
                    crawl_variantImageMap_forEach href origin imgs
                      (set_variant_ids m ids fullImageUrl))))"

definition crawl_variantImageMap ::
  "url_ctor \<Rightarrow> string \<Rightarrow> ('v, 'p) product_scheme \<Rightarrow> error + (string \<rightharpoonup> string)" where
  "crawl_variantImageMap href origin productJson =
     (case p_images productJson of
        None \<Rightarrow> Inr Map.empty
      | Some imgs \<Rightarrow> crawl_variantImageMap_forEach href origin imgs Map.empty)"

record resolved_variant =
  rv_id :: "jsid option"
  rv_title :: "string option"
  rv_price :: jsval
  rv_compareAtPrice :: jsval
  rv_sku :: string
  rv_available :: bool
  rv_option1 :: "string option"
  rv_option2 :: "string option"
  rv_option3 :: "string option"
  rv_options :: "string list"
  rv_image :: "string option"

text \<open>The price of a variant: \<^verbatim>\<open>if (x > 10000) x = x / 100\<close>.\<close>

definition cents :: "jsval \<Rightarrow> jsval" where
  "cents x = (if gt x 10000 then div100 x else x)"

text \<open>The image of a variant: the three methods in order, \<^verbatim>\<open>null\<close> when none applies.\<close>

definition variant_image ::
  "url_ctor \<Rightarrow> string \<Rightarrow> (string \<rightharpoonup> string) \<Rightarrow> string list \<Rightarrow> 'v variant_scheme \<Rightarrow> error + string option" where
  "variant_image href origin m images v =
     (case featured_src v of
        Some s \<Rightarrow>
          (case absolute_highRes href origin s of Inl e \<Rightarrow> Inl e | Inr a \<Rightarrow> Inr (Some a))
      | None \<Rightarrow>
          (case v_id v of
             None \<Rightarrow> Inl TypeError
           | Some i \<Rightarrow>
               (case m (toString i) of
                  Some u \<Rightarrow> Inr (Some u)
                | None \<Rightarrow>
                    (case images of
                       i0 # _ \<Rightarrow> Inr (Some i0)
                     | [] \<Rightarrow> Inr None))))"

definition resolve_variant ::
  "url_ctor \<Rightarrow> string \<Rightarrow> (string \<rightharpoonup> string) \<Rightarrow> string list \<Rightarrow> jsval \<Rightarrow> 'v variant_scheme \<Rightarrow> error + resolved_variant" where
  "resolve_variant href origin m images price v =
     (case variant_image href origin m images v of
        Inl e \<Rightarrow> Inl e
      | Inr variantImage \<Rightarrow>
          Inr \<lparr> rv_id = v_id v,
                rv_title = v_title v,
                rv_price = js_or (cents (v_price v)) price,
                rv_compareAtPrice = js_or (cents (v_compare_at_price v)) Null,
                rv_sku = (case str_or_null (v_sku v) of None \<Rightarrow> [] | Some s \<Rightarrow> s),
                rv_available =
                  (case v_available v of
                     Some b \<Rightarrow> b
                   | None \<Rightarrow> gt (v_inventory_quantity v) 0),
                rv_option1 = str_or_null (v_option1 v),
                rv_option2 = str_or_null (v_option2 v),
                rv_option3 = str_or_null (v_option3 v),
                rv_options = filter_Boolean [v_option1 v, v_option2 v, v_option3 v],
                rv_image = variantImage \<rparr>)"

text \<open>\<^verbatim>\<open>productJson.variants.map\<close>: the first exception ends it.\<close>

fun resolve_variants ::
  "url_ctor \<Rightarrow> string \<Rightarrow> (string \<rightharpoonup> string) \<Rightarrow> string list \<Rightarrow> jsval \<Rightarrow> 'v variant_scheme list \<Rightarrow> error + resolved_variant list" where
  "resolve_variants href origin m images price [] = Inr []"
| "resolve_variants href origin m images price (v # vs) =
     (case resolve_variant href origin m images price v of
        Inl e \<Rightarrow> Inl e
      | Inr r \<Rightarrow>
          (case resolve_variants href origin m images price vs of
             Inl e \<Rightarrow> Inl e
           | Inr rs \<Rightarrow> Inr (r # rs)))"

text \<open>
  The variants of a product as the crawler computes them: the images list first, then
  the map, then the variants. A product without a variants array has no variants.
\<close>

definition crawl_variants ::
  "url_ctor \<Rightarrow> string \<Rightarrow> ('v, 'p) product_scheme \<Rightarrow> error + resolved_variant list" where
  "crawl_variants href origin productJson =
     (case crawl_images href origin productJson of
        Inl e \<Rightarrow> Inl e
      | Inr images \<Rightarrow>
          (case p_variants productJson of
             None \<Rightarrow> Inr []
           | Some vs \<Rightarrow>
               (case crawl_variantImageMap href origin productJson of
                  Inl e \<Rightarrow> Inl e
                | Inr m \<Rightarrow> resolve_variants href origin m images (product_price productJson) vs)))"

section \<open>Notions of the specification and concrete products\<close>

text \<open>
  A strict priority cascade: each of the rules (a), (b), (c) is \<open>None\<close> when it does not
  apply and \<open>Some\<close> of its result when it does; (d) is the result when none applies.
\<close>

definition priority_cascade :: "'a option \<Rightarrow> 'a option \<Rightarrow> 'a option \<Rightarrow> 'a \<Rightarrow> 'a" where
  "priority_cascade a b c d =
     (case a of
        Some x \<Rightarrow> x
      | None \<Rightarrow> (case b of Some y \<Rightarrow> y | None \<Rightarrow> (case c of Some z \<Rightarrow> z | None \<Rightarrow> d)))"

definition first_entry :: "'a list \<Rightarrow> 'a option" where
  "first_entry xs = (case xs of [] \<Rightarrow> None | x # _ \<Rightarrow> Some x)"

text \<open>
  The cascade of the specification for the crawler: (a) the normalised featured image,
  (b) the map at the stringified id, (c) the first entry of the images list,
  (d) \<^verbatim>\<open>null\<close>. The value of a rule is a result or the exception of the URL constructor.
\<close>

definition cascade_crawl ::
  "url_ctor \<Rightarrow> string \<Rightarrow> (string \<rightharpoonup> string) \<Rightarrow> string list \<Rightarrow> 'v variant_scheme \<Rightarrow> error + string option" where
  "cascade_crawl href origin m images v =
     priority_cascade
       (map_option (\<lambda>s. map_sum id Some (absolute_highRes href origin s)) (featured_src v))
       (map_option (\<lambda>u. Inr (Some u)) (Option.bind (v_id v) (\<lambda>i. m (toString i))))
       (map_option (\<lambda>u. Inr (Some u)) (first_entry images))
       (Inr None)"

text \<open>
  The cascade for \<^verbatim>\<open>processVariantImages\<close>: (a) the featured image source, (b) the map at
  the stringified id, (c) the source of the first image, (d) the image the variant had.
\<close>

definition cascade_process ::
  "(string \<rightharpoonup> string option) \<Rightarrow> img list option \<Rightarrow> 'v variant_scheme \<Rightarrow> image_field" where
  "cascade_process m images v =
     priority_cascade
       (map_option Image (featured_src v))
       (map_option to_field (Option.bind (v_id v) (\<lambda>i. m (toString i))))
       (map_option (\<lambda>i. to_field (src_of i)) (Option.bind images first_entry))
       (v_image v)"


text \<open>The last image, in input order, whose \<^verbatim>\<open>variant_ids\<close> hold an id that prints as \<open>k\<close>.\<close>

definition carries_id :: "string \<Rightarrow> img \<Rightarrow> bool" where
  "carries_id k i =
     (case variant_ids_of i of None \<Rightarrow> False | Some ids \<Rightarrow> k \<in> set (map toString ids))"

definition last_image_for :: "string \<Rightarrow> img list \<Rightarrow> img option" where
  "last_image_for k imgs = first_entry (rev (filter (carries_id k) imgs))"

text \<open>
  An absolute URL begins with a scheme: a letter, then letters, digits, \<^verbatim>\<open>+\<close>, \<^verbatim>\<open>-\<close> or
  \<^verbatim>\<open>.\<close>, then a colon.
\<close>

definition is_alpha :: "char \<Rightarrow> bool" where
  "is_alpha c = (c \<in> set ''abcdefghijklmnopqrstuvwxyzABCDEFGHIJKLMNOPQRSTUVWXYZ'')"

definition scheme_char :: "char \<Rightarrow> bool" where
  "scheme_char c = (is_alpha c \<or> c \<in> set ''0123456789+-.'')"

definition starts_with_scheme :: "string \<Rightarrow> bool" where
  "starts_with_scheme u =
     (case u of
        [] \<Rightarrow> False
      | c # _ \<Rightarrow>
          is_alpha c \<and> (case dropWhile scheme_char u of [] \<Rightarrow> False | d # _ \<Rightarrow> d = CHR '':''))"

text \<open>The number of places of a string where the size-token expression matches.\<close>

fun size_token_count :: "string \<Rightarrow> nat" where
  "size_token_count [] = 0"
| "size_token_count (c # s) =
     (if match_here size_tokens (c # s) = None then 0 else 1) + size_token_count s"

abbreviation underscore :: char where
  "underscore \<equiv> CHR ''_''"

text \<open>
  Concrete products: a variant that carries an id and a featured image and nothing
  else, and a product with images and variants and no price.
\<close>

definition raw_variant :: "jsid option \<Rightarrow> string option \<Rightarrow> variant" where
  "raw_variant i f =
     \<lparr> v_id = i, v_title = None, v_price = Undefined, v_compare_at_price = Undefined,
       v_sku = None, v_available = None, v_inventory_quantity = Undefined,
       v_option1 = None, v_option2 = None, v_option3 = None,
       v_featured_image = map_option (\<lambda>s. \<lparr>fi_src = Some s\<rparr>) f, v_image = NoImage \<rparr>"

definition raw_image :: "string \<Rightarrow> jsid list \<Rightarrow> img" where
  "raw_image s ids = ImgObj \<lparr>img_src = Some s, img_variant_ids = Some ids\<rparr>"

definition raw_product :: "img list \<Rightarrow> variant list \<Rightarrow> unit product" where
  "raw_product imgs vs =
     \<lparr> p_price_min = Undefined, p_price = Undefined, p_images = Some imgs, p_variants = Some vs \<rparr>"

text \<open>The scenario of the specification: one image tagged with variant 9, variants 9 and 10.\<close>

definition scenario_product :: "unit product" where
  "scenario_product =
     raw_product [raw_image ''/a_small_.jpg'' [IdStr ''9'']]
       [raw_variant (Some (IdStr ''9'')) None, raw_variant (Some (IdStr ''10'')) None]"

text \<open>The scenario with the image on the Shopify CDN.\<close>

definition cdn_scenario_product :: "unit product" where
  "cdn_scenario_product =
     raw_product [raw_image ''https://cdn.shopify.com/a_small_.jpg'' [IdStr ''9'']]
       [raw_variant (Some (IdStr ''9'')) None, raw_variant (Some (IdStr ''10'')) None]"

text \<open>The scenario with its second variant lacking an id.\<close>

definition missing_id_product :: "unit product" where
  "missing_id_product =
     raw_product [raw_image ''/a_small_.jpg'' [IdStr ''9'']]
       [raw_variant (Some (IdStr ''9'')) None, raw_variant None None]"

text \<open>
  Two images tagged with variant 9, the variant given by number; a variant tagged once;
  a variant with a featured image.
\<close>

definition two_images :: "img list" where
  "two_images =
     [raw_image ''https://cdn.shopify.com/a_small_.jpg'' [IdStr ''9'', IdNum 10],
      raw_image ''https://cdn.shopify.com/b_large_.jpg'' [IdNum 9]]"

definition three_variants :: "variant list" where
  "three_variants =
     [raw_variant (Some (IdNum 9)) None,
      raw_variant (Some (IdNum 10)) None,
      raw_variant (Some (IdNum 11)) (Some ''/c.jpg'')]"

definition two_images_product :: "unit product" where
  "two_images_product = raw_product two_images three_variants"

text \<open>A product without images; its variant without an image field, and with one.\<close>

definition no_images_product :: "unit product" where
  "no_images_product = raw_product [] [raw_variant (Some (IdNum 1)) None]"

definition kept_image_product :: "unit product" where
  "kept_image_product =
     raw_product [] [(raw_variant (Some (IdNum 1)) None)\<lparr>v_image := Image ''old.jpg''\<rparr>]"

text \<open>A variant whose featured image is a relative path that begins with \<^verbatim>\<open>http\<close>.\<close>

definition http_path_product :: "unit product" where
  "http_path_product =
     raw_product [] [raw_variant (Some (IdNum 1)) (Some ''httpdocs/a_small_.jpg'')]"

section \<open>Price normalisation\<close>

text \<open>
  Claim C5, as the code has it. A numeric price above 10000 is divided by 100 and a
  price of at most 10000 is returned as it is, except the price 0, which is falsy:
  \<open>normalizePrice\<close> returns \<^verbatim>\<open>null\<close> for it and the crawler's
  \<^verbatim>\<open>variantPrice || price\<close> replaces it by the product's price. So 12999 gives 129.99
  and 45 gives 45.
\<close>

theorem price_cents_heuristic:
  "normalizePrice (Num r) = (if r = 0 then Null else if 10000 < r then Num (r / 100) else Num r)
   \<and> js_or (cents (Num r)) price = (if 10000 < r then Num (r / 100) else if r = 0 then price else Num r)
   \<and> normalizePrice (Num 12999) = Num (12999 / 100)
   \<and> normalizePrice (Num 45) = Num 45
   \<and> js_or (cents (Num 12999)) price = Num (12999 / 100)
   \<and> js_or (cents (Num 45)) price = Num 45"
  by (auto simp add: normalizePrice_def js_or_def cents_def)

text \<open>
  Claim C5 as stated, "otherwise the value is returned unchanged", fails at the numeric
  price 0: \<open>normalizePrice\<close> returns \<^verbatim>\<open>null\<close>, and a variant price 0 of a product
  priced 25 is reported as 25.
\<close>

theorem price_zero_not_unchanged:
  "normalizePrice (Num 0) \<noteq> Num 0 \<and> js_or (cents (Num 0)) (Num 25) \<noteq> Num 0"
  by (simp add: normalizePrice_def js_or_def cents_def)

text \<open>
  Claim C10. \<open>normalizePrice\<close> maps each falsy price (0, \<^verbatim>\<open>null\<close>, \<^verbatim>\<open>undefined\<close>,
  \<^verbatim>\<open>NaN\<close>) to \<^verbatim>\<open>null\<close>, and returns the boundary value 10000 undivided.
\<close>

theorem normalizePrice_falsy_is_null:
  "normalizePrice (Num 0) = Null
   \<and> normalizePrice Null = Null
   \<and> normalizePrice Undefined = Null
   \<and> normalizePrice NaN = Null
   \<and> normalizePrice (Num 10000) = Num 10000"
  by (simp add: normalizePrice_def)

section \<open>The high-resolution rewrite\<close>

text \<open>
  The expression matches at the start of \<open>c # x\<close> exactly when \<open>c\<close> is an underscore, the
  characters of \<open>x\<close> before its first underscore spell a size token, and that underscore
  exists.
\<close>

lemma startsWith_token:
  assumes "underscore \<notin> set t"
  shows "startsWith (c # x) (''_'' @ t @ ''_'') \<longleftrightarrow>
         c = underscore \<and> takeWhile (\<lambda>d. d \<noteq> underscore) x = t \<and> dropWhile (\<lambda>d. d \<noteq> underscore) x \<noteq> []"
  using assms
proof (induction t arbitrary: x c)
  case Nil
  then show ?case by (cases x) (auto simp: startsWith_def)
next
  case (Cons a t)
  have IH: "\<And>c x. startsWith (c # x) (''_'' @ t @ ''_'') \<longleftrightarrow>
         c = underscore \<and> takeWhile (\<lambda>d. d \<noteq> underscore) x = t \<and> dropWhile (\<lambda>d. d \<noteq> underscore) x \<noteq> []"
    using Cons by simp
  have a: "a \<noteq> underscore" using Cons.prems by auto
  show ?case
  proof (cases x)
    case Nil
    then show ?thesis by (simp add: startsWith_def)
  next
    case (Cons b y)
    have "startsWith (c # b # y) (''_'' @ (a # t) @ ''_'') \<longleftrightarrow> c = underscore \<and> b = a \<and> startsWith (underscore # y) (''_'' @ t @ ''_'')"
      by (auto simp: startsWith_def)
    then show ?thesis using IH[of underscore y] a Cons by auto
  qed
qed

lemma match_here_iff:
  "match_here ts s \<noteq> None \<longleftrightarrow> (\<exists>t \<in> set ts. startsWith s (''_'' @ t @ ''_''))"
  by (induction ts) auto

lemma size_tokens_no_underscore: "t \<in> set size_tokens \<Longrightarrow> underscore \<notin> set t"
  by (auto simp: size_tokens_def)

lemma match_size_iff:
  "match_here size_tokens (c # x) \<noteq> None \<longleftrightarrow>
     c = underscore \<and> takeWhile (\<lambda>d. d \<noteq> underscore) x \<in> set size_tokens \<and> dropWhile (\<lambda>d. d \<noteq> underscore) x \<noteq> []"
proof -
  have "match_here size_tokens (c # x) \<noteq> None \<longleftrightarrow>
        (\<exists>t \<in> set size_tokens. startsWith (c # x) (''_'' @ t @ ''_''))"
    by (rule match_here_iff)
  also have "\<dots> \<longleftrightarrow> (\<exists>t \<in> set size_tokens.
        c = underscore \<and> takeWhile (\<lambda>d. d \<noteq> underscore) x = t \<and> dropWhile (\<lambda>d. d \<noteq> underscore) x \<noteq> [])"
    using startsWith_token[OF size_tokens_no_underscore] by simp
  also have "\<dots> \<longleftrightarrow> c = underscore \<and> takeWhile (\<lambda>d. d \<noteq> underscore) x \<in> set size_tokens
        \<and> dropWhile (\<lambda>d. d \<noteq> underscore) x \<noteq> []"
    by blast
  finally show ?thesis .
qed

lemma match_here_rest:
  "match_here ts s = Some r \<Longrightarrow> \<exists>t \<in> set ts. s = ''_'' @ t @ ''_'' @ r"
proof (induction ts)
  case Nil then show ?case by simp
next
  case (Cons t ts)
  show ?case
  proof (cases "startsWith s (''_'' @ t @ ''_'')")
    case True
    then have "r = drop (length t + 2) s" using Cons.prems by simp
    moreover have "take (length t + 2) s = ''_'' @ t @ ''_''" using True by (simp add: startsWith_def)
    ultimately have "s = ''_'' @ t @ ''_'' @ r"
      by (metis append_take_drop_id append.assoc)
    then show ?thesis by auto
  next
    case False
    then show ?thesis using Cons by auto
  qed
qed

lemma replace_size_first_underscore:
  "takeWhile (\<lambda>d. d \<noteq> underscore) (replace_size s) = takeWhile (\<lambda>d. d \<noteq> underscore) s
   \<and> (dropWhile (\<lambda>d. d \<noteq> underscore) (replace_size s) = [] \<longleftrightarrow> dropWhile (\<lambda>d. d \<noteq> underscore) s = [])"
proof (induction s)
  case Nil then show ?case by simp
next
  case (Cons c s)
  show ?case
  proof (cases "match_here size_tokens (c # s)")
    case None
    then show ?thesis using Cons by simp
  next
    case (Some r)
    then have "c = underscore" using match_size_iff[of c s] by simp
    then show ?thesis using Some by simp
  qed
qed

lemma count_no_underscore:
  "underscore \<notin> set xs \<Longrightarrow> size_token_count (xs @ ys) = size_token_count ys"
proof (induction xs)
  case Nil then show ?case by simp
next
  case (Cons a xs)
  then have "match_here size_tokens (a # xs @ ys) = None"
    using match_size_iff[of a "xs @ ys"] by auto
  then show ?case using Cons by simp
qed

lemma replace_size_noop: "size_token_count s = 0 \<Longrightarrow> replace_size s = s"
  by (induction s) (auto split: if_splits)

lemma count_replace_size: "size_token_count (replace_size s) = size_token_count s - 1"
proof (induction s)
  case Nil then show ?case by simp
next
  case (Cons c s)
  show ?case
  proof (cases "match_here size_tokens (c # s)")
    case None
    have "match_here size_tokens (c # replace_size s) = None"
      using None match_size_iff[of c s] match_size_iff[of c "replace_size s"]
        replace_size_first_underscore[of s] by auto
    then show ?thesis using None Cons by simp
  next
    case (Some r)
    then obtain t where t: "t \<in> set size_tokens" "c # s = ''_'' @ t @ ''_'' @ r"
      using match_here_rest by blast
    then have s: "s = t @ underscore # r" by simp
    have nu: "underscore \<notin> set t" using t size_tokens_no_underscore by blast
    have 1: "size_token_count s = size_token_count (underscore # r)"
      unfolding s using count_no_underscore[OF nu] by simp
    have "underscore \<notin> set ''2048x2048''" by simp
    then have 2: "size_token_count (''2048x2048'' @ underscore # r) = size_token_count (underscore # r)"
      by (rule count_no_underscore)
    have 3: "match_here size_tokens (''_2048x2048_'' @ r) = None"
      by (simp add: size_tokens_def startsWith_def)
    have "size_token_count (''_2048x2048_'' @ r) = size_token_count (underscore # r)"
      using 2 3 by simp
    then show ?thesis using Some 1 by simp
  qed
qed

lemma replace_size_nonempty: "s \<noteq> [] \<Longrightarrow> replace_size s \<noteq> []"
  by (cases s) (auto split: option.splits)

text \<open>
  Claim C6, as the code has it. The rewrite replaces the leftmost size token only. For a
  URL with at most one place where a size token stands, rewriting twice is rewriting
  once, for the guarded rewrite and for \<open>getHighResImage\<close>; a URL without a size token
  is returned as it is.
\<close>

theorem highRes_idempotent_single_token:
  assumes "size_token_count u \<le> 1"
  shows "highRes (highRes u) = highRes u
         \<and> getHighResImage (getHighResImage (Some u)) = getHighResImage (Some u)
         \<and> (size_token_count u = 0 \<longrightarrow> highRes u = u)"
proof -
  have twice: "highRes (highRes u) = highRes u"
  proof (cases "includes_str u ''cdn.shopify.com''")
    case False
    then show ?thesis by (simp add: highRes_def)
  next
    case True
    have "size_token_count (replace_size u) = 0"
      using assms count_replace_size[of u] by simp
    then have "replace_size (replace_size u) = replace_size u"
      by (rule replace_size_noop)
    then show ?thesis using True by (simp add: highRes_def)
  qed
  have opt: "getHighResImage (getHighResImage (Some u)) = getHighResImage (Some u)"
  proof (cases "u = []")
    case True
    then show ?thesis by (simp add: getHighResImage_def)
  next
    case False
    then have "highRes u \<noteq> []" by (simp add: highRes_def replace_size_nonempty)
    then show ?thesis using False twice by (simp add: getHighResImage_def)
  qed
  have noop: "size_token_count u = 0 \<longrightarrow> highRes u = u"
    by (simp add: highRes_def replace_size_noop)
  show ?thesis using twice opt noop by simp
qed

theorem highRes_idempotent_single_token_witness:
  "size_token_count ''https://cdn.shopify.com/a_small_.jpg'' \<le> 1
   \<and> getHighResImage (Some ''https://cdn.shopify.com/a_small_.jpg'')
       = Some ''https://cdn.shopify.com/a_2048x2048_.jpg''
   \<and> getHighResImage (getHighResImage (Some ''https://cdn.shopify.com/a_small_.jpg''))
       = getHighResImage (Some ''https://cdn.shopify.com/a_small_.jpg'')"
proof -
  have h: "size_token_count ''https://cdn.shopify.com/a_small_.jpg'' \<le> 1"
    by (simp add: size_tokens_def startsWith_def)
  have v: "getHighResImage (Some ''https://cdn.shopify.com/a_small_.jpg'')
       = Some ''https://cdn.shopify.com/a_2048x2048_.jpg''"
    by (simp add: getHighResImage_def highRes_def size_tokens_def startsWith_def)
  show ?thesis
    using h v highRes_idempotent_single_token[OF h] by simp
qed

text \<open>
  Claim C6 as stated fails on a CDN URL with two size tokens: the first rewrite leaves
  the second token, and the second rewrite replaces it, so the rewritten URL is not
  returned unchanged.
\<close>

theorem highRes_not_idempotent_two_tokens:
  "getHighResImage (Some ''https://cdn.shopify.com/a_small_b_large_.jpg'')
     = Some ''https://cdn.shopify.com/a_2048x2048_b_large_.jpg''
   \<and> getHighResImage (Some ''https://cdn.shopify.com/a_2048x2048_b_large_.jpg'')
     = Some ''https://cdn.shopify.com/a_2048x2048_b_2048x2048_.jpg''
   \<and> getHighResImage (getHighResImage (Some ''https://cdn.shopify.com/a_small_b_large_.jpg''))
     \<noteq> getHighResImage (Some ''https://cdn.shopify.com/a_small_b_large_.jpg'')"
  by (simp add: getHighResImage_def highRes_def size_tokens_def startsWith_def)

section \<open>The variant image map and the loops over images and variants\<close>

lemma set_variant_ids_apply:
  "set_variant_ids m ids u k = (if k \<in> set (map toString ids) then Some u else m k)"
  unfolding set_variant_ids_def
  by (induction ids arbitrary: m) auto

lemma last_image_for_Nil: "last_image_for k [] = None"
  by (simp add: last_image_for_def first_entry_def)

lemma last_image_for_Cons:
  "last_image_for k (i # imgs) =
     (case last_image_for k imgs of
        Some im \<Rightarrow> Some im
      | None \<Rightarrow> if carries_id k i then Some i else None)"
  by (cases "rev (filter (carries_id k) imgs)")
     (auto simp: last_image_for_def first_entry_def)

lemma variantImageMap_forEach_apply:
  "variantImageMap_forEach imgs m k =
     (case last_image_for k imgs of None \<Rightarrow> m k | Some im \<Rightarrow> Some (src_of im))"
proof (induction imgs arbitrary: m)
  case Nil
  then show ?case by (simp add: last_image_for_Nil)
next
  case (Cons i imgs)
  show ?case
    by (cases "variant_ids_of i"; cases "last_image_for k imgs")
       (auto simp: Cons last_image_for_Cons carries_id_def set_variant_ids_apply)
qed

lemma crawl_forEach_apply:
  assumes "crawl_variantImageMap_forEach href origin imgs m = Inr m'"
  shows "case last_image_for k imgs of
           None \<Rightarrow> m' k = m k
         | Some im \<Rightarrow> \<exists>s u. src_of im = Some s \<and> absolute_highRes href origin s = Inr u \<and> m' k = Some u"
  using assms
proof (induction imgs arbitrary: m)
  case Nil
  then show ?case by (simp add: last_image_for_Nil)
next
  case (Cons i imgs)
  show ?case
  proof (cases "variant_ids_of i")
    case None
    then have "crawl_variantImageMap_forEach href origin imgs m = Inr m'"
      using Cons.prems by simp
    from Cons.IH[OF this] None show ?thesis
      by (auto simp: last_image_for_Cons carries_id_def split: option.splits)
  next
    case (Some ids)
    then obtain s u where s: "src_of i = Some s" and u: "absolute_highRes href origin s = Inr u"
      and rest: "crawl_variantImageMap_forEach href origin imgs (set_variant_ids m ids u) = Inr m'"
      using Cons.prems by (auto split: option.splits sum.splits)
    from Cons.IH[OF rest] Some s u show ?thesis
      by (auto simp: last_image_for_Cons carries_id_def set_variant_ids_apply split: option.splits)
  qed
qed

lemma resolve_variants_Inr:
  "resolve_variants href origin m images price vs = Inr rs \<Longrightarrow>
   list_all2 (\<lambda>v r. resolve_variant href origin m images price v = Inr r) vs rs"
  by (induction vs arbitrary: rs) (auto split: sum.splits)

lemma assign_images_Inr:
  "assign_images m images vs = Inr vs' \<Longrightarrow>
   list_all2 (\<lambda>v v'. assign_image m images v = Inr v') vs vs'"
  by (induction vs arbitrary: vs') (auto split: sum.splits)

lemma crawl_variants_Inr:
  assumes "p_variants p = Some vs" and "crawl_variants href origin p = Inr rs"
  shows "\<exists>images m. crawl_images href origin p = Inr images
           \<and> crawl_variantImageMap href origin p = Inr m
           \<and> resolve_variants href origin m images (product_price p) vs = Inr rs"
  using assms by (auto simp: crawl_variants_def split: sum.splits)

lemma processVariantImages_Inr:
  assumes "p_variants p = Some vs" and "processVariantImages p = Inr p'"
  shows "\<exists>vs'. p' = p\<lparr>p_variants := Some vs'\<rparr>
           \<and> assign_images (variantImageMap p) (p_images p) vs = Inr vs'"
  using assms by (auto simp: processVariantImages_def split: sum.splits)

lemma variant_image_cascade:
  assumes "variant_image href origin m images v = Inr x"
  shows "Inr x = cascade_crawl href origin m images v"
proof (cases "featured_src v")
  case (Some s)
  then show ?thesis
    using assms by (auto simp: variant_image_def cascade_crawl_def priority_cascade_def split: sum.splits)
next
  case None
  then obtain i where i: "v_id v = Some i"
    using assms by (auto simp: variant_image_def split: option.splits)
  show ?thesis
  proof (cases "m (toString i)")
    case (Some u)
    with None i assms show ?thesis
      by (auto simp: variant_image_def cascade_crawl_def priority_cascade_def)
  next
    case nm: None
    with None i assms show ?thesis
      by (cases images) (auto simp: variant_image_def cascade_crawl_def priority_cascade_def first_entry_def)
  qed
qed

lemma resolve_variant_image:
  "resolve_variant href origin m images price v = Inr r \<Longrightarrow>
   variant_image href origin m images v = Inr (rv_image r)"
  by (auto simp: resolve_variant_def split: sum.splits)

lemma assign_image_cascade:
  assumes "assign_image m images v = Inr v'"
  shows "v_image v' = cascade_process m images v"
proof (cases "featured_src v")
  case (Some s)
  then show ?thesis
    using assms by (auto simp: assign_image_def cascade_process_def priority_cascade_def)
next
  case None
  then obtain i where i: "v_id v = Some i"
    using assms by (auto simp: assign_image_def split: option.splits)
  show ?thesis
  proof (cases "m (toString i)")
    case (Some u)
    with None i assms show ?thesis
      by (auto simp: assign_image_def cascade_process_def priority_cascade_def)
  next
    case nm: None
    with None i assms show ?thesis
      by (cases images; cases "the images")
         (auto simp: assign_image_def cascade_process_def priority_cascade_def first_entry_def)
  qed
qed


lemma resolve_variant_fields:
  "resolve_variant href origin m images price v = Inr r \<Longrightarrow>
   rv_id r = v_id v \<and> rv_title r = v_title v \<and> Inr (rv_image r) = cascade_crawl href origin m images v"
  using variant_image_cascade[of href origin m images v]
  by (auto simp: resolve_variant_def split: sum.splits)

lemma assign_image_frame:
  "assign_image m images v = Inr v' \<Longrightarrow> v' = v\<lparr>v_image := v_image v'\<rparr>"
  by (auto simp: assign_image_def split: option.splits list.splits)

lemmas product_defs = raw_product_def raw_variant_def raw_image_def two_images_def three_variants_def
  two_images_product_def scenario_product_def cdn_scenario_product_def missing_id_product_def
  http_path_product_def no_images_product_def kept_image_product_def

lemmas crawl_defs = crawl_variants_def crawl_images_def crawl_variantImageMap_def
  origin_path_href_def absolute_highRes_def highRes_def startsWith_def resolve_variant_def
  variant_image_def featured_src_def set_variant_ids_def product_price_def js_or_def cents_def
  size_tokens_def

lemmas process_defs = processVariantImages_def variantImageMap_def assign_image_def
  featured_src_def set_variant_ids_def

lemma two_images_crawl:
  "\<exists>rs. crawl_variants origin_path_href ''https://shop.example'' two_images_product = Inr rs
     \<and> map rv_image rs =
         [Some ''https://cdn.shopify.com/b_2048x2048_.jpg'',
          Some ''https://cdn.shopify.com/a_2048x2048_.jpg'',
          Some ''https://shop.example/c.jpg'']"
  by (simp add: product_defs crawl_defs)

lemma two_images_process:
  "\<exists>p'. processVariantImages two_images_product = Inr p'
     \<and> map_option (map v_image) (p_variants p') =
         Some [Image ''https://cdn.shopify.com/b_large_.jpg'',
               Image ''https://cdn.shopify.com/a_small_.jpg'',
               Image ''/c.jpg'']"
  by (simp add: product_defs process_defs)

lemma two_images_variants: "p_variants two_images_product = Some three_variants"
  by (simp add: two_images_product_def raw_product_def)

lemma two_images_images: "p_images two_images_product = Some two_images"
  by (simp add: two_images_product_def raw_product_def)

section \<open>The resolved image of a variant\<close>

text \<open>
  Claim C1, as the code has it. Whenever the resolver returns, the image of every variant
  is the value of the first applicable rule of the cascade: (a) the featured image source
  of the variant, (b) the entry of the variant image map at the stringified id, (c) the
  first entry of the images list. When none applies, (d), the crawler resolves to
  \<^verbatim>\<open>null\<close>, and \<open>processVariantImages\<close> assigns nothing: the variant keeps the image
  field it came with. In \<open>crawl_variants\<close> the featured source is normalised and the
  images list is the crawler's list of normalised image URLs; \<open>processVariantImages\<close>
  takes the sources as they are.
\<close>

theorem variant_image_priority_cascade:
  assumes "p_variants p = Some vs"
  shows "(\<forall>rs. crawl_variants href origin p = Inr rs \<longrightarrow>
            (\<exists>images m. crawl_images href origin p = Inr images
               \<and> crawl_variantImageMap href origin p = Inr m
               \<and> list_all2 (\<lambda>v r. Inr (rv_image r) = cascade_crawl href origin m images v) vs rs))
       \<and> (\<forall>p'. processVariantImages p = Inr p' \<longrightarrow>
            (\<exists>vs'. p_variants p' = Some vs'
               \<and> list_all2 (\<lambda>v v'. v_image v' = cascade_process (variantImageMap p) (p_images p) v)
                     vs vs'))"
proof (intro conjI allI impI)
  fix rs
  assume "crawl_variants href origin p = Inr rs"
  from crawl_variants_Inr[OF assms this] obtain images m where
    im: "crawl_images href origin p = Inr images" and
    m: "crawl_variantImageMap href origin p = Inr m" and
    rs: "resolve_variants href origin m images (product_price p) vs = Inr rs"
    by blast
  have "list_all2 (\<lambda>v r. resolve_variant href origin m images (product_price p) v = Inr r) vs rs"
    using rs by (rule resolve_variants_Inr)
  then have "list_all2 (\<lambda>v r. Inr (rv_image r) = cascade_crawl href origin m images v) vs rs"
    by (rule list_all2_mono) (rule variant_image_cascade, rule resolve_variant_image)
  with im m show "\<exists>images m. crawl_images href origin p = Inr images
               \<and> crawl_variantImageMap href origin p = Inr m
               \<and> list_all2 (\<lambda>v r. Inr (rv_image r) = cascade_crawl href origin m images v) vs rs"
    by blast
next
  fix p'
  assume "processVariantImages p = Inr p'"
  from processVariantImages_Inr[OF assms this] obtain vs' where
    p': "p' = p\<lparr>p_variants := Some vs'\<rparr>" and
    vs': "assign_images (variantImageMap p) (p_images p) vs = Inr vs'"
    by blast
  have "list_all2 (\<lambda>v v'. assign_image (variantImageMap p) (p_images p) v = Inr v') vs vs'"
    using vs' by (rule assign_images_Inr)
  then have "list_all2 (\<lambda>v v'. v_image v' = cascade_process (variantImageMap p) (p_images p) v) vs vs'"
    by (rule list_all2_mono) (rule assign_image_cascade)
  with p' show "\<exists>vs'. p_variants p' = Some vs'
               \<and> list_all2 (\<lambda>v v'. v_image v' = cascade_process (variantImageMap p) (p_images p) v)
                     vs vs'"
    by simp
qed

theorem variant_image_priority_cascade_witness:
  "p_variants two_images_product = Some three_variants
   \<and> (\<exists>rs images m.
         crawl_variants origin_path_href ''https://shop.example'' two_images_product = Inr rs
         \<and> map rv_image rs =
             [Some ''https://cdn.shopify.com/b_2048x2048_.jpg'',
              Some ''https://cdn.shopify.com/a_2048x2048_.jpg'',
              Some ''https://shop.example/c.jpg'']
         \<and> crawl_images origin_path_href ''https://shop.example'' two_images_product = Inr images
         \<and> crawl_variantImageMap origin_path_href ''https://shop.example'' two_images_product = Inr m
         \<and> list_all2 (\<lambda>v r. Inr (rv_image r) =
               cascade_crawl origin_path_href ''https://shop.example'' m images v) three_variants rs)
   \<and> (\<exists>p' vs'.
         processVariantImages two_images_product = Inr p'
         \<and> p_variants p' = Some vs'
         \<and> map v_image vs' =
             [Image ''https://cdn.shopify.com/b_large_.jpg'',
              Image ''https://cdn.shopify.com/a_small_.jpg'',
              Image ''/c.jpg'']
         \<and> list_all2 (\<lambda>v v'. v_image v' =
               cascade_process (variantImageMap two_images_product) (p_images two_images_product) v)
               three_variants vs')"
  using variant_image_priority_cascade[OF two_images_variants, of origin_path_href "''https://shop.example''"]
    two_images_crawl two_images_process two_images_variants
  by fastforce

text \<open>
  Claim C1 as stated, "(d) null otherwise", fails for \<open>processVariantImages\<close>: a
  variant without featured image and without tagged image, in a product without images,
  keeps the image it came with. The crawler resolves the same variant to \<^verbatim>\<open>null\<close>.
\<close>

theorem no_rule_keeps_image:
  "map_sum id (\<lambda>p. map_option (map v_image) (p_variants p))
     (processVariantImages kept_image_product) = Inr (Some [Image ''old.jpg''])
   \<and> map_sum id (map rv_image)
       (crawl_variants origin_path_href ''https://shop.example'' kept_image_product) = Inr [None]"
  by (simp add: product_defs process_defs crawl_defs)




text \<open>
  Claim C9. \<open>processVariantImages\<close> writes the image field of variants and nothing
  else: the returned product is the input product with a new variants list, the images
  list is the same, and each returned variant is the input variant at the same position
  with its image field updated. The \<open>more\<close> parts of the records stand for every field
  the function does not read.
\<close>

theorem processVariantImages_frame:
  assumes "processVariantImages p = Inr p'"
  shows "p' = p\<lparr>p_variants := p_variants p'\<rparr>
         \<and> p_images p' = p_images p
         \<and> map_option length (p_variants p') = map_option length (p_variants p)
         \<and> rel_option (list_all2 (\<lambda>v v'. v' = v\<lparr>v_image := v_image v'\<rparr>))
              (p_variants p) (p_variants p')"
proof (cases "p_variants p")
  case None
  then have "p' = p" using assms by (simp add: processVariantImages_def)
  then show ?thesis using None by simp
next
  case (Some vs)
  from processVariantImages_Inr[OF Some assms] obtain vs' where
    p': "p' = p\<lparr>p_variants := Some vs'\<rparr>" and
    vs': "assign_images (variantImageMap p) (p_images p) vs = Inr vs'"
    by blast
  have all: "list_all2 (\<lambda>v v'. assign_image (variantImageMap p) (p_images p) v = Inr v') vs vs'"
    using vs' by (rule assign_images_Inr)
  then have fr: "list_all2 (\<lambda>v v'. v' = v\<lparr>v_image := v_image v'\<rparr>) vs vs'"
    by (rule list_all2_mono) (rule assign_image_frame)
  have len: "length vs' = length vs"
    using all by (simp add: list_all2_lengthD)
  show ?thesis using p' Some fr len by simp
qed


theorem processVariantImages_frame_witness:
  "\<exists>p'. processVariantImages two_images_product = Inr p'
     \<and> p' = two_images_product\<lparr>p_variants := p_variants p'\<rparr>
     \<and> p_images p' = p_images two_images_product
     \<and> map_option length (p_variants p') = Some 3
     \<and> rel_option (list_all2 (\<lambda>v v'. v' = v\<lparr>v_image := v_image v'\<rparr>))
          (p_variants two_images_product) (p_variants p')"
proof -
  obtain p' where p': "processVariantImages two_images_product = Inr p'"
    using two_images_process by blast
  have len: "map_option length (p_variants two_images_product) = Some 3"
    by (simp add: two_images_variants three_variants_def)
  show ?thesis
    using processVariantImages_frame[OF p'] p' len by auto
qed

section \<open>Last write wins\<close>

text \<open>
  Claim C2, as the code has it. The variant image map is built by scanning the images in
  input order, and a later image overwrites an earlier one: the entry of a stringified id
  is the URL of the last image whose \<^verbatim>\<open>variant_ids\<close> hold that id, and there is no entry
  when no image holds it. The crawler stores the normalised URL, \<open>processVariantImages\<close>
  the source as it is, not normalised. So, whenever the resolver returns, a variant
  without a featured image whose id is tagged on several images resolves to the URL of
  the last of them: normalised by the crawler, as the image gives it by
  \<open>processVariantImages\<close>.
\<close>

theorem last_tagged_image_wins:
  assumes imgs: "p_images p = Some imgs"
  shows "(\<forall>k. variantImageMap p k = map_option src_of (last_image_for k imgs))
    \<and> (\<forall>m k. crawl_variantImageMap href origin p = Inr m \<longrightarrow>
          rel_option (\<lambda>im u. \<exists>s. src_of im = Some s \<and> absolute_highRes href origin s = Inr u)
            (last_image_for k imgs) (m k))
    \<and> (\<forall>vs rs i j im.
          p_variants p = Some vs \<longrightarrow> crawl_variants href origin p = Inr rs \<longrightarrow>
          i < length vs \<longrightarrow> featured_src (vs ! i) = None \<longrightarrow> v_id (vs ! i) = Some j \<longrightarrow>
          last_image_for (toString j) imgs = Some im \<longrightarrow>
          (\<exists>s u. src_of im = Some s \<and> absolute_highRes href origin s = Inr u
             \<and> rv_image (rs ! i) = Some u))
    \<and> (\<forall>vs p' i j im.
          p_variants p = Some vs \<longrightarrow> processVariantImages p = Inr p' \<longrightarrow>
          i < length vs \<longrightarrow> featured_src (vs ! i) = None \<longrightarrow> v_id (vs ! i) = Some j \<longrightarrow>
          last_image_for (toString j) imgs = Some im \<longrightarrow>
          map_option (\<lambda>vs'. v_image (vs' ! i)) (p_variants p') = Some (to_field (src_of im)))"
proof -
  have pm: "variantImageMap p k = map_option src_of (last_image_for k imgs)" for k
    using imgs by (simp add: variantImageMap_def variantImageMap_forEach_apply split: option.splits)
  have cm: "rel_option (\<lambda>im u. \<exists>s. src_of im = Some s \<and> absolute_highRes href origin s = Inr u)
            (last_image_for k imgs) (m k)"
    if "crawl_variantImageMap href origin p = Inr m" for m k
  proof -
    have "crawl_variantImageMap_forEach href origin imgs Map.empty = Inr m"
      using that imgs by (simp add: crawl_variantImageMap_def)
    from crawl_forEach_apply[OF this, of k] show ?thesis
      by (cases "last_image_for k imgs") auto
  qed
  have ce: "\<exists>s u. src_of im = Some s \<and> absolute_highRes href origin s = Inr u
             \<and> rv_image (rs ! i) = Some u"
    if vs: "p_variants p = Some vs" and c: "crawl_variants href origin p = Inr rs"
      and i: "i < length vs" and nf: "featured_src (vs ! i) = None" and j: "v_id (vs ! i) = Some j"
      and l: "last_image_for (toString j) imgs = Some im" for vs rs i j im
  proof -
    from crawl_variants_Inr[OF vs c] obtain images m where
      m: "crawl_variantImageMap href origin p = Inr m" and
      rs: "resolve_variants href origin m images (product_price p) vs = Inr rs"
      by blast
    have "list_all2 (\<lambda>v r. resolve_variant href origin m images (product_price p) v = Inr r) vs rs"
      using rs by (rule resolve_variants_Inr)
    then have "resolve_variant href origin m images (product_price p) (vs ! i) = Inr (rs ! i)"
      using i by (rule list_all2_nthD)
    then have casc: "Inr (rv_image (rs ! i)) = cascade_crawl href origin m images (vs ! i)"
      by (simp add: resolve_variant_fields)
    from cm[OF m, of "toString j"] l obtain s u where
      s: "src_of im = Some s" and u: "absolute_highRes href origin s = Inr u"
      and mk: "m (toString j) = Some u"
      by (cases "m (toString j)") auto
    have "rv_image (rs ! i) = Some u"
      using casc nf j mk by (simp add: cascade_crawl_def priority_cascade_def)
    with s u show ?thesis by blast
  qed
  have pe: "map_option (\<lambda>vs'. v_image (vs' ! i)) (p_variants p') = Some (to_field (src_of im))"
    if vs: "p_variants p = Some vs" and c: "processVariantImages p = Inr p'"
      and i: "i < length vs" and nf: "featured_src (vs ! i) = None" and j: "v_id (vs ! i) = Some j"
      and l: "last_image_for (toString j) imgs = Some im" for vs p' i j im
  proof -
    from processVariantImages_Inr[OF vs c] obtain vs' where
      p': "p' = p\<lparr>p_variants := Some vs'\<rparr>" and
      vs': "assign_images (variantImageMap p) (p_images p) vs = Inr vs'"
      by blast
    have "list_all2 (\<lambda>v v'. assign_image (variantImageMap p) (p_images p) v = Inr v') vs vs'"
      using vs' by (rule assign_images_Inr)
    then have "assign_image (variantImageMap p) (p_images p) (vs ! i) = Inr (vs' ! i)"
      using i by (rule list_all2_nthD)
    then have "v_image (vs' ! i) = cascade_process (variantImageMap p) (p_images p) (vs ! i)"
      by (rule assign_image_cascade)
    then have "v_image (vs' ! i) = to_field (src_of im)"
      using nf j l pm[of "toString j"] by (simp add: cascade_process_def priority_cascade_def)
    then show ?thesis using p' by simp
  qed
  show ?thesis using pm cm ce pe by blast
qed

lemma two_images_last:
  "last_image_for ''9'' two_images = Some (raw_image ''https://cdn.shopify.com/b_large_.jpg'' [IdNum 9])
   \<and> toString (IdNum 9) = ''9''"
  by (simp add: last_image_for_def first_entry_def carries_id_def two_images_def raw_image_def)

theorem last_tagged_image_wins_witness:
  "p_images two_images_product = Some two_images
   \<and> last_image_for ''9'' two_images = Some (raw_image ''https://cdn.shopify.com/b_large_.jpg'' [IdNum 9])
   \<and> variantImageMap two_images_product ''9'' = Some (Some ''https://cdn.shopify.com/b_large_.jpg'')
   \<and> (\<exists>rs. crawl_variants origin_path_href ''https://shop.example'' two_images_product = Inr rs
         \<and> rv_image (rs ! 0) = Some ''https://cdn.shopify.com/b_2048x2048_.jpg'')
   \<and> (\<exists>p' vs'. processVariantImages two_images_product = Inr p'
         \<and> p_variants p' = Some vs'
         \<and> v_image (vs' ! 0) = Image ''https://cdn.shopify.com/b_large_.jpg'')"
proof -
  note wins = last_tagged_image_wins[OF two_images_images, of origin_path_href "''https://shop.example''"]
  have first: "0 < length three_variants" "featured_src (three_variants ! 0) = None"
    "v_id (three_variants ! 0) = Some (IdNum 9)"
    by (simp_all add: three_variants_def raw_variant_def featured_src_def)
  have last: "last_image_for (toString (IdNum 9)) two_images
      = Some (raw_image ''https://cdn.shopify.com/b_large_.jpg'' [IdNum 9])"
    using two_images_last by simp
  have v: "variantImageMap two_images_product ''9'' = Some (Some ''https://cdn.shopify.com/b_large_.jpg'')"
    using wins two_images_last by (simp add: raw_image_def)
  obtain rs where rs: "crawl_variants origin_path_href ''https://shop.example'' two_images_product = Inr rs"
    using two_images_crawl by blast
  from wins[THEN conjunct2, THEN conjunct2, THEN conjunct1, rule_format,
      OF two_images_variants rs first last]
  obtain s u where "src_of (raw_image ''https://cdn.shopify.com/b_large_.jpg'' [IdNum 9]) = Some s"
    and "absolute_highRes origin_path_href ''https://shop.example'' s = Inr u"
    and "rv_image (rs ! 0) = Some u"
    by blast
  then have c: "rv_image (rs ! 0) = Some ''https://cdn.shopify.com/b_2048x2048_.jpg''"
    by (auto simp: raw_image_def absolute_highRes_def highRes_def startsWith_def size_tokens_def)
  obtain p' where p': "processVariantImages two_images_product = Inr p'"
    using two_images_process by blast
  from wins[THEN conjunct2, THEN conjunct2, THEN conjunct2, rule_format,
      OF two_images_variants p' first last]
  have "map_option (\<lambda>vs'. v_image (vs' ! 0)) (p_variants p')
      = Some (Image ''https://cdn.shopify.com/b_large_.jpg'')"
    by (simp add: raw_image_def)
  then obtain vs' where "p_variants p' = Some vs'"
    and "v_image (vs' ! 0) = Image ''https://cdn.shopify.com/b_large_.jpg''"
    by (cases "p_variants p'") auto
  with p' have q: "\<exists>p' vs'. processVariantImages two_images_product = Inr p'
         \<and> p_variants p' = Some vs'
         \<and> v_image (vs' ! 0) = Image ''https://cdn.shopify.com/b_large_.jpg''"
    by blast
  show ?thesis using v rs c q two_images_images two_images_last by blast
qed

text \<open>
  Claim C2 as stated, "resolves to the last such image's (normalized) URL", fails for
  \<open>processVariantImages\<close>: variant 9 is tagged on both images and resolves to the source
  of the last one as the image gives it, with its size token, while the normalised URL
  of that source, which the crawler assigns, has the token rewritten.
\<close>

theorem last_tagged_image_not_normalised:
  "map_sum id (\<lambda>p. map_option (\<lambda>vs. v_image (vs ! 0)) (p_variants p))
     (processVariantImages two_images_product)
     = Inr (Some (Image ''https://cdn.shopify.com/b_large_.jpg''))
   \<and> absolute_highRes origin_path_href ''https://shop.example'' ''https://cdn.shopify.com/b_large_.jpg''
     = Inr ''https://cdn.shopify.com/b_2048x2048_.jpg''
   \<and> map_sum id (\<lambda>rs. rv_image (rs ! 0))
       (crawl_variants origin_path_href ''https://shop.example'' two_images_product)
     = Inr (Some ''https://cdn.shopify.com/b_2048x2048_.jpg'')"
  by (simp add: product_defs process_defs crawl_defs)

section \<open>Absolute image URLs\<close>

text \<open>
  Claim C3. Every image of a resolved variant should be an absolute URL, and the script
  comments its block with "Make relative URLs absolute". The block tests
  \<^verbatim>\<open>startsWith('http')\<close>, so a relative path that begins with \<^verbatim>\<open>http\<close> is taken for
  absolute: the resolved image of the variant is the path itself, which begins with no
  scheme. The helper \<open>makeAbsoluteUrl\<close> resolves a path only when it begins with a
  slash, and returns any other relative path as it is, where the inline block resolves
  it.
\<close>

theorem http_prefix_not_absolute:
  "map_sum id (map rv_image)
     (crawl_variants origin_path_href ''https://shop.example'' http_path_product)
     = Inr [Some ''httpdocs/a_small_.jpg'']
   \<and> \<not> starts_with_scheme ''httpdocs/a_small_.jpg''
   \<and> makeAbsoluteUrl origin_path_href (Some ''images/a_small_.jpg'') ''https://shop.example''
       = Inr (Some ''images/a_small_.jpg'')
   \<and> \<not> starts_with_scheme ''images/a_small_.jpg''"
  by (simp add: product_defs crawl_defs makeAbsoluteUrl_def starts_with_scheme_def
        scheme_char_def is_alpha_def)

section \<open>Exceptions\<close>

text \<open>
  Claim C4. The resolver should never raise, and a variant without id should fall
  through to the first image. On the scenario with its second variant lacking an id the
  variant does not fall through: rule (b) evaluates \<^verbatim>\<open>variant.id.toString()\<close> without
  testing the id, and both resolvers throw a \<^verbatim>\<open>TypeError\<close>. Other lookups of the same
  script test \<^verbatim>\<open>variant.id\<close> first.
\<close>

theorem missing_id_raises:
  "crawl_variants origin_path_href ''https://shop.example'' missing_id_product = Inl TypeError
   \<and> processVariantImages missing_id_product = Inl TypeError"
  by (simp add: product_defs crawl_defs process_defs)

section \<open>The scenario of the specification\<close>

text \<open>
  Claim C7, as the code has it. For the image \<^verbatim>\<open>/a_small_.jpg\<close> tagged with variant 9,
  the variants 9 and 10 and the origin \<^verbatim>\<open>https://shop.example\<close>, the crawler resolves
  both variants to \<^verbatim>\<open>https://shop.example/a_small_.jpg\<close>, variant 9 by the map and
  variant 10 by the first image: the URL does not contain \<^verbatim>\<open>cdn.shopify.com\<close>, so the
  size token stays. The helpers \<open>makeAbsoluteUrl\<close> and \<open>getHighResImage\<close> give the
  same URL. With the image at \<^verbatim>\<open>https://cdn.shopify.com/a_small_.jpg\<close> both variants
  resolve to \<^verbatim>\<open>https://cdn.shopify.com/a_2048x2048_.jpg\<close>.
\<close>

theorem scenario_resolved_images:
  "crawl_variants origin_path_href ''https://shop.example'' scenario_product =
     Inr [\<lparr> rv_id = Some (IdStr ''9''), rv_title = None, rv_price = Undefined,
             rv_compareAtPrice = Null, rv_sku = [], rv_available = False, rv_option1 = None,
             rv_option2 = None, rv_option3 = None, rv_options = [],
             rv_image = Some ''https://shop.example/a_small_.jpg'' \<rparr>,
           \<lparr> rv_id = Some (IdStr ''10''), rv_title = None, rv_price = Undefined,
             rv_compareAtPrice = Null, rv_sku = [], rv_available = False, rv_option1 = None,
             rv_option2 = None, rv_option3 = None, rv_options = [],
             rv_image = Some ''https://shop.example/a_small_.jpg'' \<rparr>]
   \<and> makeAbsoluteUrl origin_path_href (Some ''/a_small_.jpg'') ''https://shop.example''
       = Inr (Some ''https://shop.example/a_small_.jpg'')
   \<and> getHighResImage (Some ''https://shop.example/a_small_.jpg'')
       = Some ''https://shop.example/a_small_.jpg''
   \<and> map_sum id (map rv_image)
         (crawl_variants origin_path_href ''https://shop.example'' cdn_scenario_product)
       = Inr [Some ''https://cdn.shopify.com/a_2048x2048_.jpg'',
              Some ''https://cdn.shopify.com/a_2048x2048_.jpg'']"
  by (simp add: product_defs crawl_defs makeAbsoluteUrl_def getHighResImage_def)

text \<open>
  Claim C7 as stated fails: the resolved images of the scenario are not the rewritten
  URL \<^verbatim>\<open>https://shop.example/a_2048x2048_.jpg\<close>.
\<close>

theorem scenario_images_not_rewritten:
  "map_sum id (map rv_image)
     (crawl_variants origin_path_href ''https://shop.example'' scenario_product)
   \<noteq> Inr [Some ''https://shop.example/a_2048x2048_.jpg'',
          Some ''https://shop.example/a_2048x2048_.jpg'']"
  by (simp add: product_defs crawl_defs)

end
